theory Spec2Isabelle
  imports Complex_Main
begin

section \<open>Gesture-controlled lights: Hands.py and Runner.py\<close>

text \<open>
  The development follows the two source files. Python floats are idealised as
  real numbers with exact arithmetic; Python integers are \<open>int\<close>; Python strings
  and the bytes written to the serial port are \<open>string\<close>. Exceptions are values of
  \<open>py_error\<close>, returned on the left of a sum.
\<close>

subsection \<open>Python primitives used by the sources\<close>

datatype py_error = TypeError | IndexError | KeyError

text \<open>\<^verbatim>\<open>int(x)\<close> on a float: truncation towards zero.\<close>

definition py_int :: "real \<Rightarrow> int" where
  "py_int r = (if 0 \<le> r then \<lfloor>r\<rfloor> else \<lceil>r\<rceil>)"

text \<open>\<^verbatim>\<open>math.hypot(a, b)\<close>.\<close>

definition hypot :: "real \<Rightarrow> real \<Rightarrow> real" where
  "hypot a b = sqrt (a\<^sup>2 + b\<^sup>2)"

text \<open>
  \<^verbatim>\<open>numpy.interp(x, [x0, x1], [f0, f1])\<close> for a scalar \<open>x\<close> and two sample
  points, in the order of numpy's checks: above the last sample point the last
  value, below the first sample point the first value, at the last sample point its
  value, otherwise the line through the two points.
\<close>

definition interp :: "real \<Rightarrow> real \<Rightarrow> real \<Rightarrow> real \<Rightarrow> real \<Rightarrow> real" where
  "interp x x0 x1 f0 f1 =
     (if x > x1 then f1
      else if x < x0 then f0
      else if x = x1 then f1
      else (f1 - f0) / (x1 - x0) * (x - x0) + f0)"

text \<open>\<^verbatim>\<open>s.encode('utf-8')\<close> on code points below 256.\<close>

definition encode_char :: "char \<Rightarrow> string" where
  "encode_char c =
     (let n = (of_char c :: nat)
      in if n < 128 then [c]
         else [char_of (192 + n div 64), char_of (128 + n mod 64)])"

definition encode_utf8 :: "string \<Rightarrow> string" where
  "encode_utf8 s = concat (map encode_char s)"

subsection \<open>Hands.py: the distance mapper\<close>

text \<open>The dictionary \<^verbatim>\<open>mapping\<close> of \<^verbatim>\<open>map_distance_to_scale\<close> and \<^verbatim>\<open>finger_count\<close>.\<close>

definition mapping :: "(int \<times> string) list" where
  "mapping = [(0, ''ZERO''), (1, ''ONE''), (2, ''TWO''), (3, ''THREE''), (4, ''FOUR''), (5, ''FIVE'')]"

text \<open>\<^verbatim>\<open>mapping[k]\<close>: a missing key raises KeyError.\<close>

definition mapping_lookup :: "int \<Rightarrow> py_error + string" where
  "mapping_lookup k = (case map_of mapping k of None \<Rightarrow> Inl KeyError | Some s \<Rightarrow> Inr s)"

text \<open>The key \<^verbatim>\<open>int(numpy.interp(distance, [min_distance, max_distance], [0, 5]))\<close>.\<close>

definition scale_key :: "real \<Rightarrow> real \<Rightarrow> real \<Rightarrow> int" where
  "scale_key distance min_distance max_distance =
     py_int (interp distance min_distance max_distance 0 5)"

definition map_distance_to_scale :: "real \<Rightarrow> real \<Rightarrow> real \<Rightarrow> py_error + string" where
  "map_distance_to_scale distance min_distance max_distance =
     mapping_lookup (scale_key distance min_distance max_distance)"

subsection \<open>Hands.py: the class \<^verbatim>\<open>Hand\<close>\<close>

text \<open>
  A landmark is a point with normalised coordinates, a detected hand is the ordered
  list of its landmarks, a position is a pair of pixel coordinates.
\<close>

type_synonym landmark = "real \<times> real"
type_synonym landmarks = "landmark list"
type_synonym position = "int \<times> int"

text \<open>
  An image is known by its \<^verbatim>\<open>shape[:2]\<close> and by what the external landmark
  provider (\<^verbatim>\<open>self.hands.process\<close>) reports on it: the list
  \<^verbatim>\<open>multi_hand_landmarks\<close>, empty when the provider sees no hand (the provider
  then reports \<^verbatim>\<open>None\<close>, which the code only tests for truth).
\<close>

record image =
  shape_h :: int
  shape_w :: int
  multi_hand_landmarks :: "landmarks list"

text \<open>
  The fields of \<^verbatim>\<open>Hand\<close> that change: \<^verbatim>\<open>self.results\<close> (\<open>None\<close> until
  the first call of \<^verbatim>\<open>get_hand\<close>, then the provider's report) and
  \<^verbatim>\<open>self.line_dist\<close>.
\<close>

record Hand =
  results :: "landmarks list option"
  line_dist :: real

definition Hand_init :: Hand where
  "Hand_init = \<lparr>results = None, line_dist = 0\<rparr>"

text \<open>\<^verbatim>\<open>get_hand\<close> stores the provider's report; the image it returns is its argument.\<close>

definition get_hand :: "Hand \<Rightarrow> image \<Rightarrow> Hand" where
  "get_hand self img = self\<lparr>results := Some (multi_hand_landmarks img)\<rparr>"

text \<open>The if-chain of \<^verbatim>\<open>get_finger\<close> that assigns \<^verbatim>\<open>points\<close>; \<open>None\<close> is its else branch.\<close>

definition finger_points :: "string \<Rightarrow> nat list option" where
  "finger_points finger =
     (if finger = ''thumb'' then Some [2, 3, 4]
      else if finger = ''index'' then Some [5, 6, 7, 8]
      else if finger = ''middle'' then Some [9, 10, 11, 12]
      else if finger = ''ring'' then Some [13, 14, 15, 16]
      else if finger = ''pinky'' then Some [17, 18, 19, 20]
      else None)"

text \<open>
  The pair \<^verbatim>\<open>(int(landmark.x * w), int(landmark.y * h))\<close> appended to
  \<^verbatim>\<open>positions\<close>, with \<^verbatim>\<open>h, w = img.shape[:2]\<close>.
\<close>

definition absolute :: "image \<Rightarrow> landmark \<Rightarrow> position" where
  "absolute img landmark =
     (py_int (fst landmark * real_of_int (shape_w img)),
      py_int (snd landmark * real_of_int (shape_h img)))"

text \<open>The inner loop of \<^verbatim>\<open>get_finger\<close> over the landmarks of one hand.\<close>

definition hand_positions :: "image \<Rightarrow> nat list \<Rightarrow> landmarks \<Rightarrow> position list" where
  "hand_positions img points i =
     map (\<lambda>(point, landmark). absolute img landmark)
         (filter (\<lambda>(point, landmark). point \<in> set points) (enumerate 0 i))"

text \<open>
  The body of \<^verbatim>\<open>get_finger\<close> below the if-chain, for a finger whose
  \<^verbatim>\<open>points\<close> are assigned. It returns the positions, or \<open>None\<close> when there are none,
  and the detector, which has changed when \<^verbatim>\<open>get_hand\<close> had to be called.
\<close>

definition get_finger_points :: "Hand \<Rightarrow> image \<Rightarrow> nat list \<Rightarrow> position list option \<times> Hand" where
  "get_finger_points self img points =
     (let self1 = (if results self = None then get_hand self img else self);
          positions = (case results self1 of
                         None \<Rightarrow> []
                       | Some hs \<Rightarrow> concat (map (hand_positions img points) hs))
      in (if positions = [] then None else Some positions, self1))"

text \<open>The else branch of \<^verbatim>\<open>get_finger\<close>: the five fingers, in the order of the source.\<close>

definition get_all_fingers :: "Hand \<Rightarrow> image \<Rightarrow> position list option list \<times> Hand" where
  "get_all_fingers self img =
     (let (thumb, self1) = get_finger_points self img [2, 3, 4];
          (index, self2) = get_finger_points self1 img [5, 6, 7, 8];
          (middle, self3) = get_finger_points self2 img [9, 10, 11, 12];
          (ring, self4) = get_finger_points self3 img [13, 14, 15, 16];
          (pinky, self5) = get_finger_points self4 img [17, 18, 19, 20]
      in ([thumb, index, middle, ring, pinky], self5))"

text \<open>
  What \<^verbatim>\<open>get_finger\<close> returns: for one of the five names the positions or
  \<open>None\<close>, for any other string the list of the five fingers' results.
\<close>

datatype finger_result = Finger "position list option" | AllFingers "position list option list"

definition get_finger :: "Hand \<Rightarrow> image \<Rightarrow> string \<Rightarrow> finger_result \<times> Hand" where
  "get_finger self img finger =
     (case finger_points finger of
        Some points \<Rightarrow>
          (let (positions, self1) = get_finger_points self img points in (Finger positions, self1))
      | None \<Rightarrow>
          (let (fingers, self1) = get_all_fingers self img in (AllFingers fingers, self1)))"

text \<open>
  The test \<^verbatim>\<open>points[k][-1][0] > points[k][-2][0]\<close> of \<^verbatim>\<open>finger_count\<close> on one
  element of the list: subscripting \<open>None\<close> raises TypeError, a list with fewer than
  two positions raises IndexError.
\<close>

definition tip_beyond_previous :: "position list option \<Rightarrow> py_error + bool" where
  "tip_beyond_previous p =
     (case p of
        None \<Rightarrow> Inl TypeError
      | Some ps \<Rightarrow>
          (if length ps < 2 then Inl IndexError
           else Inr (fst (ps ! (length ps - 1)) > fst (ps ! (length ps - 2)))))"

text \<open>The five tests of \<^verbatim>\<open>finger_count\<close>, in the order given by the list of indices.\<close>

fun count_extended :: "position list option list \<Rightarrow> nat list \<Rightarrow> int \<Rightarrow> py_error + int" where
  "count_extended points [] count = Inr count"
| "count_extended points (k # ks) count =
     (case tip_beyond_previous (points ! k) of
        Inl e \<Rightarrow> Inl e
      | Inr b \<Rightarrow> count_extended points ks (if b then count + 1 else count))"

text \<open>
  \<^verbatim>\<open>finger_count\<close>: \<^verbatim>\<open>self.get_finger(img)\<close> has the default \<^verbatim>\<open>finger=""\<close>
  and so takes the else branch; \<^verbatim>\<open>if points:\<close> tests that the list is not empty;
  the fingers are tested in the order index, middle, ring, pinky, thumb.
\<close>

definition finger_count :: "Hand \<Rightarrow> image \<Rightarrow> (py_error + string) \<times> Hand" where
  "finger_count self img =
     (let (points, self1) = get_all_fingers self img
      in if points \<noteq> [] then
           (case count_extended points [1, 2, 3, 4, 0] 0 of
              Inl e \<Rightarrow> (Inl e, self1)
            | Inr count \<Rightarrow> (mapping_lookup count, self1))
         else (mapping_lookup 0, self1))"

text \<open>
  The value of \<^verbatim>\<open>self.get_finger(img, f)[-1] if self.get_finger(img, f) else None\<close>:
  \<open>None\<close>, the last position of a named finger, or, for a string that names no
  finger, the last element of the five-finger list when that element is a list.
\<close>

datatype fing_pos = NoPos | Pos position | PosList "position list"

definition truthy :: "finger_result \<Rightarrow> bool" where
  "truthy r = (case r of Finger None \<Rightarrow> False | Finger (Some ps) \<Rightarrow> ps \<noteq> [] | AllFingers rs \<Rightarrow> rs \<noteq> [])"

definition last_element :: "finger_result \<Rightarrow> py_error + fing_pos" where
  "last_element r =
     (case r of
        Finger None \<Rightarrow> Inl TypeError
      | Finger (Some ps) \<Rightarrow> (if ps = [] then Inl IndexError else Inr (Pos (last ps)))
      | AllFingers rs \<Rightarrow>
          (if rs = [] then Inl IndexError
           else Inr (case last rs of None \<Rightarrow> NoPos | Some ps \<Rightarrow> PosList ps)))"

definition fingertip :: "Hand \<Rightarrow> image \<Rightarrow> string \<Rightarrow> (py_error + fing_pos) \<times> Hand" where
  "fingertip self img finger =
     (let (cond, self1) = get_finger self img finger
      in if truthy cond then
           (let (r, self2) = get_finger self1 img finger in (last_element r, self2))
         else (Inr NoPos, self1))"

text \<open>\<^verbatim>\<open>if fing1_pos and fing2_pos\<close>: \<open>None\<close> and the empty list are false.\<close>

definition pos_truthy :: "fing_pos \<Rightarrow> bool" where
  "pos_truthy p = (case p of NoPos \<Rightarrow> False | Pos _ \<Rightarrow> True | PosList ps \<Rightarrow> ps \<noteq> [])"

text \<open>
  What \<^verbatim>\<open>draw_line\<close> returns: the image when \<^verbatim>\<open>draw\<close> is set, the three points
  and the distance otherwise, \<^verbatim>\<open>(None, None)\<close> when no pair of fingertips is found.
\<close>

datatype line_result = LineImage image | LinePoints "position list" real | NoLine

text \<open>
  The loop of \<^verbatim>\<open>draw_line\<close> over the detected hands. Subtracting the components
  of two positions is defined only for two pixel pairs; an element that is a list
  of positions raises TypeError. The drawn line changes pixels only, which the
  model of an image does not hold.
\<close>

fun draw_line_hands ::
  "Hand \<Rightarrow> image \<Rightarrow> string \<Rightarrow> string \<Rightarrow> bool \<Rightarrow> landmarks list \<Rightarrow> (py_error + line_result) \<times> Hand" where
  "draw_line_hands self img finger1 finger2 draw [] = (Inr NoLine, self)"
| "draw_line_hands self img finger1 finger2 draw (i # rest) =
     (case fingertip self img finger1 of
        (Inl e, self1) \<Rightarrow> (Inl e, self1)
      | (Inr fing1_pos, self1) \<Rightarrow>
          (case fingertip self1 img finger2 of
             (Inl e, self2) \<Rightarrow> (Inl e, self2)
           | (Inr fing2_pos, self2) \<Rightarrow>
               (if pos_truthy fing1_pos \<and> pos_truthy fing2_pos then
                  (case (fing1_pos, fing2_pos) of
                     (Pos (x1, y1), Pos (x2, y2)) \<Rightarrow>
                       (let self3 = self2\<lparr>line_dist :=
                                      hypot (real_of_int (x1 - x2)) (real_of_int (y1 - y2))\<rparr>
                        in if draw then (Inr (LineImage img), self3)
                           else (Inr (LinePoints
                                        [(x1, y1), ((x1 + x2) div 2, (y1 + y2) div 2), (x2, y2)]
                                        (line_dist self3)), self3))
                   | _ \<Rightarrow> (Inl TypeError, self2))
                else draw_line_hands self2 img finger1 finger2 draw rest)))"

definition draw_line ::
  "Hand \<Rightarrow> image \<Rightarrow> string \<Rightarrow> string \<Rightarrow> bool \<Rightarrow> (py_error + line_result) \<times> Hand" where
  "draw_line self img finger1 finger2 draw =
     (let self1 = (if results self = None then get_hand self img else self)
      in case results self1 of
           None \<Rightarrow> (Inr NoLine, self1)
         | Some hs \<Rightarrow> draw_line_hands self1 img finger1 finger2 draw hs)"

subsection \<open>Runner.py: the main loop of \<^verbatim>\<open>runner\<close>\<close>

text \<open>
  What one pass of the loop takes from outside: the result of
  \<^verbatim>\<open>camera.read()\<close> (\<open>None\<close> when \<^verbatim>\<open>ret\<close> is false), whether
  \<^verbatim>\<open>serial_.write\<close> raises SerialException when it is called, and whether the key
  read by \<^verbatim>\<open>cv2.waitKey\<close> is \<^verbatim>\<open>q\<close>.
\<close>

record iteration =
  camera_read :: "image option"
  write_raises :: bool
  quit_pressed :: bool

text \<open>
  The state of the loop: the detector, \<^verbatim>\<open>last_sent_data\<close>, and the serial port,
  known by the arguments of all calls of \<^verbatim>\<open>serial_.write\<close> (\<open>write_calls\<close>) and
  by the byte strings of the calls that returned (\<open>serial_written\<close>), oldest first.
\<close>

record runner_state =
  detector :: Hand
  last_sent_data :: string
  write_calls :: "string list"
  serial_written :: "string list"

text \<open>The state when the loop is entered: the port is open, nothing has been sent.\<close>

definition runner_init :: runner_state where
  "runner_init =
     \<lparr>detector = Hand_init, last_sent_data = [], write_calls = [], serial_written = []\<rparr>"

datatype loop_exit = FrameError | SerialError | QuitKey | Uncaught py_error

datatype control = Continue | Break loop_exit

text \<open>The end of a pass: display, then the test of the quit key.\<close>

definition end_of_pass :: "runner_state \<Rightarrow> iteration \<Rightarrow> control \<times> runner_state" where
  "end_of_pass s it = (if quit_pressed it then (Break QuitKey, s) else (Continue, s))"

text \<open>
  One pass of the \<^verbatim>\<open>while True\<close> loop. An exception other than SerialException
  leaves the loop uncaught. Printing, display and the sleep are not modelled, nor is
  the asynchronous KeyboardInterrupt.
\<close>

definition loop_body :: "runner_state \<Rightarrow> iteration \<Rightarrow> control \<times> runner_state" where
  "loop_body s it =
     (case camera_read it of
        None \<Rightarrow> (Break FrameError, s)
      | Some frame \<Rightarrow>
          (case draw_line (get_hand (detector s) frame) frame ''thumb'' ''index'' True of
             (Inl e, d) \<Rightarrow> (Break (Uncaught e), s\<lparr>detector := d\<rparr>)
           | (Inr drawn, d) \<Rightarrow>
               (case map_distance_to_scale (line_dist d) 15 200 of
                  Inl e \<Rightarrow> (Break (Uncaught e), s\<lparr>detector := d\<rparr>)
                | Inr name \<Rightarrow>
                    (let scaled_distance = name @ [CHR 0x0A];
                         s1 = s\<lparr>detector := d\<rparr>
                     in if scaled_distance \<noteq> last_sent_data s1 then
                          (let s2 = s1\<lparr>write_calls :=
                                        write_calls s1 @ [encode_utf8 scaled_distance]\<rparr>
                           in if write_raises it then (Break SerialError, s2)
                              else end_of_pass
                                     (s2\<lparr>serial_written :=
                                           serial_written s2 @ [encode_utf8 scaled_distance],
                                         last_sent_data := scaled_distance\<rparr>) it)
                        else end_of_pass s1 it))))"

text \<open>
  The loop over a script of passes. The script is what the outside world supplies;
  when it is used up the loop is still running (\<open>Continue\<close>). The selection and
  opening of the port before the loop and the release of camera and port after it
  are not part of the model.
\<close>

fun run_loop :: "runner_state \<Rightarrow> iteration list \<Rightarrow> control \<times> runner_state" where
  "run_loop s [] = (Continue, s)"
| "run_loop s (it # its) =
     (case loop_body s it of
        (Continue, s1) \<Rightarrow> run_loop s1 its
      | (Break r, s1) \<Rightarrow> (Break r, s1))"

subsection \<open>Scripted inputs and auxiliary notions\<close>

text \<open>A pass that reads the given frame, in which the write succeeds and no key is pressed.\<close>

definition frame_pass :: "image \<Rightarrow> iteration" where
  "frame_pass frame = \<lparr>camera_read = Some frame, write_raises = False, quit_pressed = False\<rparr>"

text \<open>A pass that reads the given frame and in which a call of the write raises.\<close>

definition failing_pass :: "image \<Rightarrow> iteration" where
  "failing_pass frame = \<lparr>camera_read = Some frame, write_raises = True, quit_pressed = False\<rparr>"

text \<open>A frame on which the provider reports no hand.\<close>

definition no_hand :: image where
  "no_hand = \<lparr>shape_h = 480, shape_w = 640, multi_hand_landmarks = []\<rparr>"

text \<open>
  A frame of 1000 by 1000 pixels with one hand of 21 landmarks: the tip of the index
  finger (landmark 8) lies \<open>n\<close> pixels to the right of all other landmarks, which
  lie in the corner of the frame.
\<close>

definition pinch_hand :: "int \<Rightarrow> landmarks" where
  "pinch_hand n = replicate 8 (0, 0) @ [(real_of_int n / 1000, 0)] @ replicate 12 (0, 0)"

definition pinch :: "int \<Rightarrow> image" where
  "pinch n = \<lparr>shape_h = 1000, shape_w = 1000, multi_hand_landmarks = [pinch_hand n]\<rparr>"

text \<open>
  A frame of 1000 by 1000 pixels with one hand of 21 landmarks in which the tips of
  the index finger and of the middle finger (landmarks 8 and 12) lie to the right of
  all other landmarks.
\<close>

definition two_fingers_hand :: landmarks where
  "two_fingers_hand =
     replicate 8 (0, 0) @ [(1 / 2, 0)] @ replicate 3 (0, 0) @ [(1 / 2, 0)] @ replicate 8 (0, 0)"

definition two_fingers :: image where
  "two_fingers =
     \<lparr>shape_h = 1000, shape_w = 1000, multi_hand_landmarks = [two_fingers_hand]\<rparr>"

text \<open>
  A frame of 10 by 10 pixels with one hand whose 21 landmarks all have the
  normalised coordinates 0.57 and 0.57.
\<close>

definition small_frame :: image where
  "small_frame =
     \<lparr>shape_h = 10, shape_w = 10,
      multi_hand_landmarks = [replicate 21 (57 / 100, 57 / 100)]\<rparr>"

text \<open>
  The distance in pixels between the tip of the thumb (landmark 4) and the tip of the
  index finger (landmark 8) of a hand of 21 landmarks, as \<^verbatim>\<open>draw_line\<close> computes it.
\<close>

definition tip_distance :: "image \<Rightarrow> landmarks \<Rightarrow> real" where
  "tip_distance img i =
     hypot (real_of_int (fst (absolute img (i ! 4)) - fst (absolute img (i ! 8))))
           (real_of_int (snd (absolute img (i ! 4)) - snd (absolute img (i ! 8))))"

text \<open>
  The state in which \<^verbatim>\<open>last_sent_data\<close> is the line of the level of the detector's
  current distance.
\<close>

definition synced :: "runner_state \<Rightarrow> bool" where
  "synced s =
     (\<exists>n. map_distance_to_scale (line_dist (detector s)) 15 200 = Inr n \<and>
          last_sent_data s = n @ [CHR 0x0A])"

text \<open>The state in which \<^verbatim>\<open>last_sent_data\<close> is what the port received last, if anything.\<close>

definition recorded :: "runner_state \<Rightarrow> bool" where
  "recorded s =
     (last_sent_data s = (if serial_written s = [] then [] else last (serial_written s)))"

section \<open>Properties\<close>

subsection \<open>The distance mapper\<close>

lemma scale_key_range: "0 \<le> scale_key d 15 200 \<and> scale_key d 15 200 \<le> 5"
  unfolding scale_key_def interp_def py_int_def
  by (auto simp: floor_le_iff le_floor_iff)

lemma scale_key_mono: "d1 \<le> d2 \<Longrightarrow> scale_key d1 15 200 \<le> scale_key d2 15 200"
  unfolding scale_key_def interp_def py_int_def
  by (auto intro!: floor_mono simp: divide_simps)

lemma scale_key_below: "d \<le> 15 \<Longrightarrow> scale_key d 15 200 = 0"
  by (simp add: scale_key_def interp_def py_int_def)

lemma scale_key_above: "200 \<le> d \<Longrightarrow> scale_key d 15 200 = 5"
  by (simp add: scale_key_def interp_def py_int_def)

lemma mapping_lookup_range:
  assumes "0 \<le> k" and "k \<le> 5"
  shows "\<exists>n. mapping_lookup k = Inr n \<and> (k, n) \<in> set mapping"
proof -
  from assms have "k = 0 \<or> k = 1 \<or> k = 2 \<or> k = 3 \<or> k = 4 \<or> k = 5" by arith
  then show ?thesis
    by (auto simp: mapping_lookup_def mapping_def)
qed

lemma map_distance_to_scale_total:
  "\<exists>n. map_distance_to_scale d 15 200 = Inr n \<and> (scale_key d 15 200, n) \<in> set mapping"
  unfolding map_distance_to_scale_def
  using scale_key_range [of d] by (intro mapping_lookup_range) simp_all

lemma encode_utf8_mapping:
  "(k, n) \<in> set mapping \<Longrightarrow> encode_utf8 (n @ [CHR 0x0A]) = n @ [CHR 0x0A]"
  by (auto simp: mapping_def encode_utf8_def encode_char_def)

text \<open>
  Claim C3. With the defaults 15 and 200, \<^verbatim>\<open>map_distance_to_scale\<close> maps 15 to
  level 0 and 200 to level 5, every distance below 15 to level 0 and every distance
  above 200 to level 5. The level is the key looked up in \<^verbatim>\<open>mapping\<close>; the
  function returns the name stored under it.
\<close>

theorem map_distance_to_scale_saturates:
  assumes "lo < 15" and "200 < hi"
  shows "scale_key 15 15 200 = 0 \<and> map_distance_to_scale 15 15 200 = Inr ''ZERO'' \<and>
         scale_key 200 15 200 = 5 \<and> map_distance_to_scale 200 15 200 = Inr ''FIVE'' \<and>
         scale_key lo 15 200 = 0 \<and> map_distance_to_scale lo 15 200 = Inr ''ZERO'' \<and>
         scale_key hi 15 200 = 5 \<and> map_distance_to_scale hi 15 200 = Inr ''FIVE''"
proof -
  have zero: "mapping_lookup 0 = Inr ''ZERO''" and five: "mapping_lookup 5 = Inr ''FIVE''"
    by (simp_all add: mapping_lookup_def mapping_def)
  have "scale_key 15 15 200 = 0" "scale_key lo 15 200 = 0"
    using assms(1) by (simp_all add: scale_key_below)
  moreover have "scale_key 200 15 200 = 5" "scale_key hi 15 200 = 5"
    using assms(2) by (simp_all add: scale_key_above)
  ultimately show ?thesis
    by (simp add: map_distance_to_scale_def zero five)
qed

theorem map_distance_to_scale_saturates_witness:
  "(10 :: real) < 15 \<and> (200 :: real) < 205 \<and>
   map_distance_to_scale 10 15 200 = Inr ''ZERO'' \<and>
   map_distance_to_scale 205 15 200 = Inr ''FIVE''"
  using map_distance_to_scale_saturates [of 10 205] by simp

text \<open>
  Claim C9. With the defaults, the level is monotonically non-decreasing in the
  distance: for distances \<open>d1 \<le> d2\<close> in the interval from 15 to 200 the level of
  \<open>d1\<close> is at most the level of \<open>d2\<close>, and each call returns the name that
  \<^verbatim>\<open>mapping\<close> holds for its level.
\<close>

theorem map_distance_to_scale_monotone:
  assumes "15 \<le> d1" and "d1 \<le> d2" and "d2 \<le> 200"
  shows "scale_key d1 15 200 \<le> scale_key d2 15 200 \<and>
         (\<exists>n1 n2. map_distance_to_scale d1 15 200 = Inr n1 \<and>
                   (scale_key d1 15 200, n1) \<in> set mapping \<and>
                   map_distance_to_scale d2 15 200 = Inr n2 \<and>
                   (scale_key d2 15 200, n2) \<in> set mapping)"
  using scale_key_mono [OF assms(2)] map_distance_to_scale_total [of d1]
    map_distance_to_scale_total [of d2]
  by blast

theorem map_distance_to_scale_monotone_witness:
  "(15 :: real) \<le> 50 \<and> (50 :: real) \<le> 100 \<and> (100 :: real) \<le> 200 \<and>
   scale_key 50 15 200 \<le> scale_key 100 15 200"
  using map_distance_to_scale_monotone [of 50 100] by simp

subsection \<open>The detector\<close>

lemma enumerate_nth: "enumerate 0 xs = map (\<lambda>i. (i, xs ! i)) [0..<length xs]"
  by (rule nth_equalityI) (simp_all add: nth_enumerate_eq)

lemma hand_positions_nth:
  "hand_positions img points i =
     map (\<lambda>p. absolute img (i ! p)) (filter (\<lambda>p. p \<in> set points) [0..<length i])"
  unfolding hand_positions_def enumerate_nth
  by (simp add: filter_map comp_def case_prod_unfold)

lemma upt_21: "[0..<21] = [0,1,2,3,4,5,6,7,8,9,10,11,12,13,14,15,16,17,18,19,20::nat]"
  by (simp add: upt_conv_Cons)

lemma hand_positions_21:
  assumes "length i = 21"
  shows "hand_positions img [2,3,4] i = map (\<lambda>p. absolute img (i ! p)) [2,3,4]"
    and "hand_positions img [5,6,7,8] i = map (\<lambda>p. absolute img (i ! p)) [5,6,7,8]"
    and "hand_positions img [9,10,11,12] i = map (\<lambda>p. absolute img (i ! p)) [9,10,11,12]"
    and "hand_positions img [13,14,15,16] i = map (\<lambda>p. absolute img (i ! p)) [13,14,15,16]"
    and "hand_positions img [17,18,19,20] i = map (\<lambda>p. absolute img (i ! p)) [17,18,19,20]"
  using assms by (simp_all add: hand_positions_nth upt_21)

lemma get_finger_points_Some:
  "results self = Some hs \<Longrightarrow>
   get_finger_points self img points =
     (if concat (map (hand_positions img points) hs) = [] then None
      else Some (concat (map (hand_positions img points) hs)), self)"
  by (simp add: get_finger_points_def Let_def)

lemma results_get_hand: "results (get_hand self img) = Some (multi_hand_landmarks img)"
  by (simp add: get_hand_def)

lemma line_dist_get_hand: "line_dist (get_hand self img) = line_dist self"
  by (simp add: get_hand_def)

lemma fingertip_named:
  assumes "results self = Some hs" and "finger_points finger = Some points"
  shows "fingertip self img finger =
     (Inr (if concat (map (hand_positions img points) hs) = [] then NoPos
           else Pos (last (concat (map (hand_positions img points) hs)))), self)"
  using assms
  by (simp add: fingertip_def get_finger_def get_finger_points_Some truthy_def last_element_def)

lemma draw_line_hands_named:
  assumes "results self = Some hs" 
    and "finger_points finger1 = Some points1" and "finger_points finger2 = Some points2"
  shows "draw_line_hands self img finger1 finger2 True rest =
     (if rest = [] \<or> concat (map (hand_positions img points1) hs) = []
         \<or> concat (map (hand_positions img points2) hs) = []
      then (Inr NoLine, self)
      else (Inr (LineImage img),
            self\<lparr>line_dist :=
              hypot (real_of_int (fst (last (concat (map (hand_positions img points1) hs)))
                                  - fst (last (concat (map (hand_positions img points2) hs)))))
                    (real_of_int (snd (last (concat (map (hand_positions img points1) hs)))
                                  - snd (last (concat (map (hand_positions img points2) hs)))))\<rparr>))"
proof (induction rest)
  case Nil
  show ?case by simp
next
  case (Cons i rest)
  show ?case
    using Cons.IH
    by (simp add: fingertip_named [OF assms(1) assms(2)] fingertip_named [OF assms(1) assms(3)]
          pos_truthy_def case_prod_unfold Let_def)
qed

lemma finger_points_thumb: "finger_points ''thumb'' = Some [2, 3, 4]"
  by (simp add: finger_points_def)

lemma finger_points_index: "finger_points ''index'' = Some [5, 6, 7, 8]"
  by (simp add: finger_points_def)

text \<open>The call of the main loop, after \<^verbatim>\<open>get_hand\<close> on the same frame.\<close>

lemma draw_line_no_hand:
  assumes "multi_hand_landmarks frame = []"
  shows "draw_line (get_hand d frame) frame ''thumb'' ''index'' True = (Inr NoLine, get_hand d frame)"
  using assms by (simp add: draw_line_def results_get_hand Let_def)

lemma draw_line_one_hand:
  assumes "multi_hand_landmarks frame = [i]" and "length i = 21"
  shows "draw_line (get_hand d frame) frame ''thumb'' ''index'' True =
           (Inr (LineImage frame),
            (get_hand d frame)\<lparr>line_dist :=
               hypot (real_of_int (fst (absolute frame (i ! 4)) - fst (absolute frame (i ! 8))))
                     (real_of_int (snd (absolute frame (i ! 4)) - snd (absolute frame (i ! 8))))\<rparr>)"
  using assms
  by (simp add: draw_line_def results_get_hand Let_def
        draw_line_hands_named [OF results_get_hand finger_points_thumb finger_points_index]
        hand_positions_21 del: draw_line_hands.simps)

lemma draw_line_total:
  "\<exists>r d'. draw_line (get_hand d frame) frame ''thumb'' ''index'' True = (Inr r, d') \<and>
           results d' = Some (multi_hand_landmarks frame)"
  by (simp add: draw_line_def results_get_hand Let_def
        draw_line_hands_named [OF results_get_hand finger_points_thumb finger_points_index]
        del: draw_line_hands.simps)

subsection \<open>The main loop\<close>

lemma loop_body_no_frame: "camera_read it = None \<Longrightarrow> loop_body s it = (Break FrameError, s)"
  by (simp add: loop_body_def)

lemma loop_body_frame:
  assumes "camera_read it = Some frame"
    and "draw_line (get_hand (detector s) frame) frame ''thumb'' ''index'' True = (Inr r, d)"
    and "map_distance_to_scale (line_dist d) 15 200 = Inr name"
  shows "loop_body s it =
     (if name @ [CHR 0x0A] \<noteq> last_sent_data s then
        (if write_raises it then
           (Break SerialError,
            s\<lparr>detector := d,
              write_calls := write_calls s @ [encode_utf8 (name @ [CHR 0x0A])]\<rparr>)
         else
           end_of_pass
             (s\<lparr>detector := d,
                write_calls := write_calls s @ [encode_utf8 (name @ [CHR 0x0A])],
                serial_written := serial_written s @ [encode_utf8 (name @ [CHR 0x0A])],
                last_sent_data := name @ [CHR 0x0A]\<rparr>) it)
      else end_of_pass (s\<lparr>detector := d\<rparr>) it)"
  using assms by (simp add: loop_body_def Let_def)

lemma end_of_pass_snd: "snd (end_of_pass s it) = s"
  by (simp add: end_of_pass_def)

lemma end_of_pass_fst: "fst (end_of_pass s it) = (if quit_pressed it then Break QuitKey else Continue)"
  by (simp add: end_of_pass_def)

lemma loop_body_synced:
  assumes "loop_body s it = (Continue, s')"
  shows "synced s'"
proof (cases "camera_read it")
  case None
  with assms show ?thesis by (simp add: loop_body_no_frame)
next
  case (Some frame)
  obtain r d where dl:
    "draw_line (get_hand (detector s) frame) frame ''thumb'' ''index'' True = (Inr r, d)"
    using draw_line_total by blast
  obtain name where nm: "map_distance_to_scale (line_dist d) 15 200 = Inr name"
    and mem: "(scale_key (line_dist d) 15 200, name) \<in> set mapping"
    using map_distance_to_scale_total by blast
  note lb = loop_body_frame [OF Some dl nm]
  from assms nm show ?thesis
    unfolding lb synced_def end_of_pass_def
    by (auto split: if_splits)
qed

lemma run_loop_synced:
  assumes "run_loop s (it # its) = (Continue, s')"
  shows "synced s'"
  using assms
proof (induction its arbitrary: s it)
  case Nil
  then show ?case
    by (auto split: prod.splits control.splits dest: loop_body_synced)
next
  case (Cons it' its)
  from Cons.prems obtain s1 where "loop_body s it = (Continue, s1)"
    and "run_loop s1 (it' # its) = (Continue, s')"
    by (auto split: prod.splits control.splits)
  then show ?case
    using Cons.IH by blast
qed

lemma loop_body_recorded:
  assumes "recorded s"
  shows "recorded (snd (loop_body s it))"
proof (cases "camera_read it")
  case None
  with assms show ?thesis by (simp add: loop_body_no_frame)
next
  case (Some frame)
  obtain r d where dl:
    "draw_line (get_hand (detector s) frame) frame ''thumb'' ''index'' True = (Inr r, d)"
    using draw_line_total by blast
  obtain name where nm: "map_distance_to_scale (line_dist d) 15 200 = Inr name"
    and mem: "(scale_key (line_dist d) 15 200, name) \<in> set mapping"
    using map_distance_to_scale_total by blast
  note lb = loop_body_frame [OF Some dl nm]
  from assms show ?thesis
    unfolding lb recorded_def
    by (simp add: end_of_pass_snd encode_utf8_mapping [OF mem])
qed

lemma run_loop_recorded:
  assumes "recorded s"
  shows "recorded (snd (run_loop s script))"
  using assms
proof (induction script arbitrary: s)
  case Nil
  then show ?case by simp
next
  case (Cons it its)
  have "recorded (snd (loop_body s it))"
    using Cons.prems by (rule loop_body_recorded)
  then show ?case
    using Cons.IH [of "snd (loop_body s it)"]
    by (auto split: prod.splits control.splits)
qed

lemma recorded_init: "recorded runner_init"
  by (simp add: recorded_def runner_init_def)

subsection \<open>Passes on particular frames\<close>

lemma map_distance_to_scale_encode:
  assumes "map_distance_to_scale d 15 200 = Inr name"
  shows "encode_utf8 (name @ [CHR 0x0A]) = name @ [CHR 0x0A]"
  using assms map_distance_to_scale_total [of d] encode_utf8_mapping by auto

lemma draw_line_no_line:
  assumes "fst (draw_line (get_hand d frame) frame ''thumb'' ''index'' True) = Inr NoLine"
  shows "draw_line (get_hand d frame) frame ''thumb'' ''index'' True = (Inr NoLine, get_hand d frame)"
  using assms
  by (simp add: draw_line_def results_get_hand Let_def
        draw_line_hands_named [OF results_get_hand finger_points_thumb finger_points_index]
        del: draw_line_hands.simps split: if_splits)

lemma loop_body_no_line:
  assumes "camera_read it = Some frame"
    and "multi_hand_landmarks frame = [] \<or>
         fst (draw_line (get_hand (detector s) frame) frame ''thumb'' ''index'' True) = Inr NoLine"
    and "map_distance_to_scale (line_dist (detector s)) 15 200 = Inr name"
  shows "loop_body s it =
     (if name @ [CHR 0x0A] \<noteq> last_sent_data s then
        (if write_raises it then
           (Break SerialError,
            s\<lparr>detector := get_hand (detector s) frame,
              write_calls := write_calls s @ [name @ [CHR 0x0A]]\<rparr>)
         else
           end_of_pass
             (s\<lparr>detector := get_hand (detector s) frame,
                write_calls := write_calls s @ [name @ [CHR 0x0A]],
                serial_written := serial_written s @ [name @ [CHR 0x0A]],
                last_sent_data := name @ [CHR 0x0A]\<rparr>) it)
      else end_of_pass (s\<lparr>detector := get_hand (detector s) frame\<rparr>) it)"
proof -
  have nm: "map_distance_to_scale (line_dist (get_hand (detector s) frame)) 15 200 = Inr name"
    using assms(3) by (simp add: line_dist_get_hand)
  have dl: "draw_line (get_hand (detector s) frame) frame ''thumb'' ''index'' True
            = (Inr NoLine, get_hand (detector s) frame)"
    using assms(2) draw_line_no_hand draw_line_no_line by blast
  show ?thesis
    using loop_body_frame [OF assms(1) dl nm]
    by (simp add: map_distance_to_scale_encode [OF assms(3)])
qed

lemma loop_body_one_hand:
  assumes "multi_hand_landmarks frame = [i]" and "length i = 21"
    and "map_distance_to_scale (tip_distance frame i) 15 200 = Inr name"
  shows "loop_body s (frame_pass frame) =
     (Continue,
      if name @ [CHR 0x0A] \<noteq> last_sent_data s then
        s\<lparr>detector := \<lparr>results = Some [i], line_dist = tip_distance frame i\<rparr>,
          write_calls := write_calls s @ [name @ [CHR 0x0A]],
          serial_written := serial_written s @ [name @ [CHR 0x0A]],
          last_sent_data := name @ [CHR 0x0A]\<rparr>
      else s\<lparr>detector := \<lparr>results = Some [i], line_dist = tip_distance frame i\<rparr>\<rparr>)"
proof -
  let ?d = "(get_hand (detector s) frame)\<lparr>line_dist := tip_distance frame i\<rparr>"
  have cam: "camera_read (frame_pass frame) = Some frame"
    by (simp add: frame_pass_def)
  have dl: "draw_line (get_hand (detector s) frame) frame ''thumb'' ''index'' True
            = (Inr (LineImage frame), ?d)"
    using draw_line_one_hand [OF assms(1) assms(2)] by (simp add: tip_distance_def)
  have nm: "map_distance_to_scale (line_dist ?d) 15 200 = Inr name"
    using assms(3) by simp
  have d: "?d = \<lparr>results = Some [i], line_dist = tip_distance frame i\<rparr>"
    by (simp add: get_hand_def assms(1))
  show ?thesis
    using loop_body_frame [OF cam dl nm]
    by (simp add: map_distance_to_scale_encode [OF assms(3)] d end_of_pass_def frame_pass_def)
qed

lemma py_int_of_int: "py_int (real_of_int n) = n"
  by (simp add: py_int_def)

lemma pinch_length: "length (pinch_hand n) = 21"
  by (simp add: pinch_hand_def)

lemma tip_distance_pinch:
  assumes "0 \<le> n"
  shows "tip_distance (pinch n) (pinch_hand n) = real_of_int n"
proof -
  have "py_int (real_of_int n) = n"
    by (rule py_int_of_int)
  then show ?thesis
    using assms
    by (simp add: tip_distance_def absolute_def pinch_def pinch_hand_def nth_append hypot_def
          py_int_def)
qed

lemma loop_body_pinch:
  assumes "0 \<le> n" and "map_distance_to_scale (real_of_int n) 15 200 = Inr name"
  shows "loop_body s (frame_pass (pinch n)) =
     (Continue,
      if name @ [CHR 0x0A] \<noteq> last_sent_data s then
        s\<lparr>detector := \<lparr>results = Some (multi_hand_landmarks (pinch n)),
                        line_dist = real_of_int n\<rparr>,
          write_calls := write_calls s @ [name @ [CHR 0x0A]],
          serial_written := serial_written s @ [name @ [CHR 0x0A]],
          last_sent_data := name @ [CHR 0x0A]\<rparr>
      else s\<lparr>detector := \<lparr>results = Some (multi_hand_landmarks (pinch n)),
                            line_dist = real_of_int n\<rparr>\<rparr>)"
proof -
  let ?i = "pinch_hand n"
  have m: "multi_hand_landmarks (pinch n) = [?i]"
    by (simp add: pinch_def)
  have nm: "map_distance_to_scale (tip_distance (pinch n) ?i) 15 200 = Inr name"
    using assms by (simp only: tip_distance_pinch)
  show ?thesis
    using loop_body_one_hand [OF m pinch_length nm, of s]
    by (simp only: tip_distance_pinch [OF assms(1)] m)
qed

lemma scale_10: "map_distance_to_scale 10 15 200 = Inr ''ZERO''"
  and scale_50: "map_distance_to_scale 50 15 200 = Inr ''ZERO''"
  and scale_100: "map_distance_to_scale 100 15 200 = Inr ''TWO''"
  and scale_205: "map_distance_to_scale 205 15 200 = Inr ''FIVE''"
  and scale_0: "map_distance_to_scale 0 15 200 = Inr ''ZERO''"
  by (simp_all add: map_distance_to_scale_def mapping_lookup_def mapping_def scale_key_def
        interp_def py_int_def)

subsection \<open>Claims about the main loop\<close>

text \<open>
  Claim C4, as amended. Three passes on frames whose thumb and index fingertips are
  10, 50 and 205 pixels apart, from the state in which nothing has been sent, have
  the levels 0, 0 and 5: the port receives two lines, ZERO and FIVE.
\<close>

theorem end_to_end_two_writes:
  assumes "multi_hand_landmarks f1 = [i1]" and "length i1 = 21" and "tip_distance f1 i1 = 10"
    and "multi_hand_landmarks f2 = [i2]" and "length i2 = 21" and "tip_distance f2 i2 = 50"
    and "multi_hand_landmarks f3 = [i3]" and "length i3 = 21" and "tip_distance f3 i3 = 205"
  shows "scale_key 10 15 200 = 0 \<and> scale_key 50 15 200 = 0 \<and> scale_key 205 15 200 = 5 \<and>
         fst (run_loop runner_init [frame_pass f1, frame_pass f2, frame_pass f3]) = Continue \<and>
         serial_written (snd (run_loop runner_init [frame_pass f1, frame_pass f2, frame_pass f3]))
           = [''ZERO'' @ [CHR 0x0A], ''FIVE'' @ [CHR 0x0A]] \<and>
         write_calls (snd (run_loop runner_init [frame_pass f1, frame_pass f2, frame_pass f3]))
           = [''ZERO'' @ [CHR 0x0A], ''FIVE'' @ [CHR 0x0A]]"
proof -
  have n1: "map_distance_to_scale (tip_distance f1 i1) 15 200 = Inr ''ZERO''"
    by (simp only: assms(3) scale_10)
  have n2: "map_distance_to_scale (tip_distance f2 i2) 15 200 = Inr ''ZERO''"
    by (simp only: assms(6) scale_50)
  have n3: "map_distance_to_scale (tip_distance f3 i3) 15 200 = Inr ''FIVE''"
    by (simp only: assms(9) scale_205)
  note p1 = loop_body_one_hand [OF assms(1) assms(2) n1]
  note p2 = loop_body_one_hand [OF assms(4) assms(5) n2]
  note p3 = loop_body_one_hand [OF assms(7) assms(8) n3]
  have keys: "scale_key 10 15 200 = 0 \<and> scale_key 50 15 200 = 0 \<and> scale_key 205 15 200 = 5"
    by (simp add: scale_key_def interp_def py_int_def)
  have run: "run_loop runner_init [frame_pass f1, frame_pass f2, frame_pass f3] =
      (Continue,
       runner_init\<lparr>detector := \<lparr>results = Some [i3], line_dist = tip_distance f3 i3\<rparr>,
         write_calls := [''ZERO'' @ [CHR 0x0A], ''FIVE'' @ [CHR 0x0A]],
         serial_written := [''ZERO'' @ [CHR 0x0A], ''FIVE'' @ [CHR 0x0A]],
         last_sent_data := ''FIVE'' @ [CHR 0x0A]\<rparr>)"
    by (simp add: p1 p2 p3 runner_init_def)
  show ?thesis
    unfolding run using keys by simp
qed

theorem end_to_end_two_writes_witness:
  "tip_distance (pinch 10) (pinch_hand 10) = 10 \<and>
   tip_distance (pinch 50) (pinch_hand 50) = 50 \<and>
   tip_distance (pinch 205) (pinch_hand 205) = 205 \<and>
   serial_written
     (snd (run_loop runner_init
             [frame_pass (pinch 10), frame_pass (pinch 50), frame_pass (pinch 205)]))
     = [''ZERO'' @ [CHR 0x0A], ''FIVE'' @ [CHR 0x0A]]"
proof -
  have m: "\<And>n. multi_hand_landmarks (pinch n) = [pinch_hand n]"
    by (simp add: pinch_def)
  note l = pinch_length
  note t = tip_distance_pinch
  have t1: "tip_distance (pinch 10) (pinch_hand 10) = 10"
    and t2: "tip_distance (pinch 50) (pinch_hand 50) = 50"
    and t3: "tip_distance (pinch 205) (pinch_hand 205) = 205"
    using t [of 10] t [of 50] t [of 205] by simp_all
  show ?thesis
    using end_to_end_two_writes [OF m l t1 m l t2 m l t3] t1 t2 t3 by simp
qed

text \<open>
  Claim C4 as stated fails: on frames with the distances 10, 50 and 205 the second
  level is 0, not 1, and the port receives two lines, not three.
\<close>

theorem end_to_end_counterexample:
  "tip_distance (pinch 10) (pinch_hand 10) = 10 \<and>
   tip_distance (pinch 50) (pinch_hand 50) = 50 \<and>
   tip_distance (pinch 205) (pinch_hand 205) = 205 \<and>
   scale_key 50 15 200 \<noteq> 1 \<and>
   length (serial_written
     (snd (run_loop runner_init
             [frame_pass (pinch 10), frame_pass (pinch 50), frame_pass (pinch 205)]))) \<noteq> 3"
proof -
  note t = tip_distance_pinch
  have t1: "tip_distance (pinch 10) (pinch_hand 10) = 10"
    and t2: "tip_distance (pinch 50) (pinch_hand 50) = 50"
    and t3: "tip_distance (pinch 205) (pinch_hand 205) = 205"
    using t [of 10] t [of 50] t [of 205] by simp_all
  have p1: "\<And>s. loop_body s (frame_pass (pinch 10)) =
     (Continue,
      if ''ZERO'' @ [CHR 0x0A] \<noteq> last_sent_data s then
        s\<lparr>detector := \<lparr>results = Some (multi_hand_landmarks (pinch 10)), line_dist = 10\<rparr>,
          write_calls := write_calls s @ [''ZERO'' @ [CHR 0x0A]],
          serial_written := serial_written s @ [''ZERO'' @ [CHR 0x0A]],
          last_sent_data := ''ZERO'' @ [CHR 0x0A]\<rparr>
      else s\<lparr>detector := \<lparr>results = Some (multi_hand_landmarks (pinch 10)), line_dist = 10\<rparr>\<rparr>)"
    using loop_body_pinch [of 10 "''ZERO''"] scale_10 by simp
  have p2: "\<And>s. loop_body s (frame_pass (pinch 50)) =
     (Continue,
      if ''ZERO'' @ [CHR 0x0A] \<noteq> last_sent_data s then
        s\<lparr>detector := \<lparr>results = Some (multi_hand_landmarks (pinch 50)), line_dist = 50\<rparr>,
          write_calls := write_calls s @ [''ZERO'' @ [CHR 0x0A]],
          serial_written := serial_written s @ [''ZERO'' @ [CHR 0x0A]],
          last_sent_data := ''ZERO'' @ [CHR 0x0A]\<rparr>
      else s\<lparr>detector := \<lparr>results = Some (multi_hand_landmarks (pinch 50)), line_dist = 50\<rparr>\<rparr>)"
    using loop_body_pinch [of 50 "''ZERO''"] scale_50 by simp
  have p3: "\<And>s. loop_body s (frame_pass (pinch 205)) =
     (Continue,
      if ''FIVE'' @ [CHR 0x0A] \<noteq> last_sent_data s then
        s\<lparr>detector := \<lparr>results = Some (multi_hand_landmarks (pinch 205)), line_dist = 205\<rparr>,
          write_calls := write_calls s @ [''FIVE'' @ [CHR 0x0A]],
          serial_written := serial_written s @ [''FIVE'' @ [CHR 0x0A]],
          last_sent_data := ''FIVE'' @ [CHR 0x0A]\<rparr>
      else s\<lparr>detector := \<lparr>results = Some (multi_hand_landmarks (pinch 205)), line_dist = 205\<rparr>\<rparr>)"
    using loop_body_pinch [of 205 "''FIVE''"] scale_205 by simp
  have k: "scale_key 50 15 200 = 0"
    by (simp add: scale_key_def interp_def py_int_def)
  have w: "serial_written
     (snd (run_loop runner_init
             [frame_pass (pinch 10), frame_pass (pinch 50), frame_pass (pinch 205)]))
       = [''ZERO'' @ [CHR 0x0A], ''FIVE'' @ [CHR 0x0A]]"
    by (simp add: p1 p2 p3 runner_init_def)
  show ?thesis
    unfolding w using t1 t2 t3 k by simp
qed

lemma loop_body_pinch_100:
  "loop_body s (frame_pass (pinch 100)) =
     (Continue,
      if ''TWO'' @ [CHR 0x0A] \<noteq> last_sent_data s then
        s\<lparr>detector := \<lparr>results = Some (multi_hand_landmarks (pinch 100)), line_dist = 100\<rparr>,
          write_calls := write_calls s @ [''TWO'' @ [CHR 0x0A]],
          serial_written := serial_written s @ [''TWO'' @ [CHR 0x0A]],
          last_sent_data := ''TWO'' @ [CHR 0x0A]\<rparr>
      else s\<lparr>detector := \<lparr>results = Some (multi_hand_landmarks (pinch 100)), line_dist = 100\<rparr>\<rparr>)"
  using loop_body_pinch [of 100 "''TWO''"] scale_100 by simp

lemma loop_body_pinch_205:
  "loop_body s (frame_pass (pinch 205)) =
     (Continue,
      if ''FIVE'' @ [CHR 0x0A] \<noteq> last_sent_data s then
        s\<lparr>detector := \<lparr>results = Some (multi_hand_landmarks (pinch 205)), line_dist = 205\<rparr>,
          write_calls := write_calls s @ [''FIVE'' @ [CHR 0x0A]],
          serial_written := serial_written s @ [''FIVE'' @ [CHR 0x0A]],
          last_sent_data := ''FIVE'' @ [CHR 0x0A]\<rparr>
      else s\<lparr>detector := \<lparr>results = Some (multi_hand_landmarks (pinch 205)), line_dist = 205\<rparr>\<rparr>)"
  using loop_body_pinch [of 205 "''FIVE''"] scale_205 by simp

lemma loop_body_effect:
  assumes "camera_read it = Some frame"
    and "loop_body s it = (c, s')"
    and "map_distance_to_scale (line_dist (detector s')) 15 200 = Inr name"
  shows "write_calls s' =
           (if name @ [CHR 0x0A] \<noteq> last_sent_data s
            then write_calls s @ [encode_utf8 (name @ [CHR 0x0A])] else write_calls s)"
    and "serial_written s' =
           (if name @ [CHR 0x0A] \<noteq> last_sent_data s \<and> \<not> write_raises it
            then serial_written s @ [encode_utf8 (name @ [CHR 0x0A])] else serial_written s)"
    and "last_sent_data s' =
           (if name @ [CHR 0x0A] \<noteq> last_sent_data s \<and> \<not> write_raises it
            then name @ [CHR 0x0A] else last_sent_data s)"
proof -
  obtain r d where dl:
    "draw_line (get_hand (detector s) frame) frame ''thumb'' ''index'' True = (Inr r, d)"
    using draw_line_total by blast
  obtain name' where nm: "map_distance_to_scale (line_dist d) 15 200 = Inr name'"
    using map_distance_to_scale_total by blast
  note lb = loop_body_frame [OF assms(1) dl nm]
  have s': "s' = snd (loop_body s it)"
    by (simp add: assms(2))
  have "detector s' = d"
    unfolding s' lb by (simp add: end_of_pass_snd)
  with nm assms(3) have n: "name' = name"
    by simp
  show "write_calls s' =
           (if name @ [CHR 0x0A] \<noteq> last_sent_data s
            then write_calls s @ [encode_utf8 (name @ [CHR 0x0A])] else write_calls s)"
    and "serial_written s' =
           (if name @ [CHR 0x0A] \<noteq> last_sent_data s \<and> \<not> write_raises it
            then serial_written s @ [encode_utf8 (name @ [CHR 0x0A])] else serial_written s)"
    and "last_sent_data s' =
           (if name @ [CHR 0x0A] \<noteq> last_sent_data s \<and> \<not> write_raises it
            then name @ [CHR 0x0A] else last_sent_data s)"
    unfolding s' lb n by (simp_all add: end_of_pass_snd)
qed

text \<open>
  Claim C1. In a pass that reads a frame, the line of the pass's level is handed to
  \<^verbatim>\<open>serial_.write\<close> if and only if it differs from \<^verbatim>\<open>last_sent_data\<close>, and
  reaches the port if moreover the write does not raise; in a state reached from the
  start of the loop \<^verbatim>\<open>last_sent_data\<close> is the line the port received last, or
  empty when the port has received nothing. In particular, when a level that differs
  from \<^verbatim>\<open>last_sent_data\<close> is sent and the next pass has the same level, the port
  receives one line in the two passes; when the next pass has another level, the port
  receives two.
\<close>

theorem debounce_invariant:
  assumes "run_loop runner_init script = (Continue, s)"
    and "camera_read it = Some frame"
    and "loop_body s it = (c, s')"
  shows "last_sent_data s = (if serial_written s = [] then [] else last (serial_written s)) \<and>
         (\<exists>name. map_distance_to_scale (line_dist (detector s')) 15 200 = Inr name \<and>
            (name @ [CHR 0x0A] \<noteq> last_sent_data s \<longrightarrow>
               write_calls s' = write_calls s @ [encode_utf8 (name @ [CHR 0x0A])] \<and>
               (\<not> write_raises it \<longrightarrow>
                  serial_written s' = serial_written s @ [encode_utf8 (name @ [CHR 0x0A])] \<and>
                  last_sent_data s' = name @ [CHR 0x0A])) \<and>
            (name @ [CHR 0x0A] = last_sent_data s \<longrightarrow>
               write_calls s' = write_calls s \<and> serial_written s' = serial_written s \<and>
               last_sent_data s' = last_sent_data s) \<and>
            (\<forall>it2 frame2 c2 s2 name2.
               camera_read it2 = Some frame2 \<and> loop_body s' it2 = (c2, s2) \<and>
               map_distance_to_scale (line_dist (detector s2)) 15 200 = Inr name2 \<and>
               name @ [CHR 0x0A] \<noteq> last_sent_data s \<and>
               \<not> write_raises it \<and> \<not> write_raises it2 \<longrightarrow>
               serial_written s2 =
                 (if name2 = name then serial_written s @ [encode_utf8 (name @ [CHR 0x0A])]
                  else serial_written s @ [encode_utf8 (name @ [CHR 0x0A]),
                                          encode_utf8 (name2 @ [CHR 0x0A])])))"
proof -
  have "recorded (snd (run_loop runner_init script))"
    using recorded_init by (rule run_loop_recorded)
  then have rec: "last_sent_data s = (if serial_written s = [] then [] else last (serial_written s))"
    by (simp add: assms(1) recorded_def)
  obtain name where nm: "map_distance_to_scale (line_dist (detector s')) 15 200 = Inr name"
    using map_distance_to_scale_total by blast
  note e = loop_body_effect [OF assms(2) assms(3) nm]
  have one: "name @ [CHR 0x0A] \<noteq> last_sent_data s \<longrightarrow>
          write_calls s' = write_calls s @ [encode_utf8 (name @ [CHR 0x0A])] \<and>
          (\<not> write_raises it \<longrightarrow>
             serial_written s' = serial_written s @ [encode_utf8 (name @ [CHR 0x0A])] \<and>
             last_sent_data s' = name @ [CHR 0x0A])"
    by (simp add: e)
  have same: "name @ [CHR 0x0A] = last_sent_data s \<longrightarrow>
          write_calls s' = write_calls s \<and> serial_written s' = serial_written s \<and>
          last_sent_data s' = last_sent_data s"
    by (simp add: e)
  have two: "serial_written s2 =
                 (if name2 = name then serial_written s @ [encode_utf8 (name @ [CHR 0x0A])]
                  else serial_written s @ [encode_utf8 (name @ [CHR 0x0A]),
                                          encode_utf8 (name2 @ [CHR 0x0A])])"
    if "camera_read it2 = Some frame2" and "loop_body s' it2 = (c2, s2)"
      and "map_distance_to_scale (line_dist (detector s2)) 15 200 = Inr name2"
      and "name @ [CHR 0x0A] \<noteq> last_sent_data s"
      and "\<not> write_raises it" and "\<not> write_raises it2"
    for it2 frame2 c2 s2 name2
    using loop_body_effect(2) [OF that(1) that(2) that(3)] that(4) that(5) that(6)
    by (simp add: e)
  show ?thesis
    using rec nm one same two by blast
qed

theorem debounce_invariant_witness:
  "serial_written
     (snd (loop_body (snd (run_loop runner_init [frame_pass (pinch 100)])) (frame_pass (pinch 100))))
     = [''TWO'' @ [CHR 0x0A]] \<and>
   serial_written
     (snd (loop_body (snd (run_loop runner_init [frame_pass (pinch 100)])) (frame_pass (pinch 205))))
     = [''TWO'' @ [CHR 0x0A], ''FIVE'' @ [CHR 0x0A]]"
proof -
  let ?s = "snd (run_loop runner_init [frame_pass (pinch 100)])"
  have h1: "run_loop runner_init [frame_pass (pinch 100)] = (Continue, ?s)"
    by (simp add: loop_body_pinch_100)
  have h2: "camera_read (frame_pass (pinch 100)) = Some (pinch 100)"
    and h2': "camera_read (frame_pass (pinch 205)) = Some (pinch 205)"
    by (simp_all add: frame_pass_def)
  have h3: "loop_body ?s (frame_pass (pinch 100))
            = (Continue, snd (loop_body ?s (frame_pass (pinch 100))))"
    and h3': "loop_body ?s (frame_pass (pinch 205))
            = (Continue, snd (loop_body ?s (frame_pass (pinch 205))))"
    by (simp_all add: loop_body_pinch_100 loop_body_pinch_205)
  have s: "serial_written ?s = [''TWO'' @ [CHR 0x0A]]"
    and l: "last_sent_data ?s = ''TWO'' @ [CHR 0x0A]"
    by (simp_all add: loop_body_pinch_100 runner_init_def)
  have d: "line_dist (detector (snd (loop_body ?s (frame_pass (pinch 100))))) = 100"
    and d': "line_dist (detector (snd (loop_body ?s (frame_pass (pinch 205))))) = 205"
    by (simp_all add: loop_body_pinch_100 loop_body_pinch_205)
  have nr: "\<not> write_raises (frame_pass (pinch 205))"
    by (simp add: frame_pass_def)
  show ?thesis
    using debounce_invariant [OF h1 h2 h3] debounce_invariant [OF h1 h2' h3'] nr
    unfolding d d' s l scale_100 scale_205
    by (simp add: encode_utf8_def encode_char_def)
qed

text \<open>
  Claim C10. When a call of \<^verbatim>\<open>serial_.write\<close> raises, the pass ends the loop with
  the serial error after that one call, \<^verbatim>\<open>last_sent_data\<close> and what the port has
  received are unchanged, and no later pass of the script is run; and
  \<^verbatim>\<open>last_sent_data\<close> changes only in a pass whose write returned, to the line that
  was written.
\<close>

theorem failed_write_keeps_record:
  assumes "loop_body s it = (c, s')"
  shows "(write_calls s' \<noteq> write_calls s \<and> write_raises it \<longrightarrow>
            c = Break SerialError \<and> last_sent_data s' = last_sent_data s \<and>
            serial_written s' = serial_written s \<and>
            length (write_calls s') = length (write_calls s) + 1 \<and>
            run_loop s (it # its) = (Break SerialError, s')) \<and>
         (last_sent_data s' \<noteq> last_sent_data s \<longrightarrow>
            \<not> write_raises it \<and>
            serial_written s' = serial_written s @ [encode_utf8 (last_sent_data s')])"
proof (cases "camera_read it")
  case None
  with assms show ?thesis by (auto simp: loop_body_no_frame)
next
  case (Some frame)
  obtain r d where dl:
    "draw_line (get_hand (detector s) frame) frame ''thumb'' ''index'' True = (Inr r, d)"
    using draw_line_total by blast
  obtain name where nm: "map_distance_to_scale (line_dist d) 15 200 = Inr name"
    using map_distance_to_scale_total by blast
  note lb = loop_body_frame [OF Some dl nm]
  have s': "s' = snd (loop_body s it)" and c: "c = fst (loop_body s it)"
    by (simp_all add: assms)
  have run: "run_loop s (it # its) =
     (case loop_body s it of (Continue, s1) \<Rightarrow> run_loop s1 its | (Break r, s1) \<Rightarrow> (Break r, s1))"
    by simp
  show ?thesis
    unfolding run unfolding s' c lb
    by (simp add: end_of_pass_snd)
qed

theorem failed_write_keeps_record_witness:
  "write_raises (failing_pass no_hand) \<and>
   write_calls (snd (loop_body runner_init (failing_pass no_hand))) \<noteq> write_calls runner_init \<and>
   fst (loop_body runner_init (failing_pass no_hand)) = Break SerialError \<and>
   last_sent_data (snd (loop_body runner_init (failing_pass no_hand))) = last_sent_data runner_init \<and>
   serial_written (snd (loop_body runner_init (failing_pass no_hand))) = [] \<and>
   run_loop runner_init [failing_pass no_hand, frame_pass (pinch 100)]
     = (Break SerialError, snd (loop_body runner_init (failing_pass no_hand)))"
proof -
  have cam: "camera_read (failing_pass no_hand) = Some no_hand"
    and raises: "write_raises (failing_pass no_hand)"
    by (simp_all add: failing_pass_def)
  have nm: "map_distance_to_scale (line_dist (detector runner_init)) 15 200 = Inr ''ZERO''"
    by (simp add: runner_init_def Hand_init_def scale_0)
  have w: "write_calls (snd (loop_body runner_init (failing_pass no_hand))) = [''ZERO'' @ [CHR 0x0A]]"
    using loop_body_no_line [OF cam _ nm] raises
    by (simp add: no_hand_def runner_init_def)
  have w0: "write_calls runner_init = []" and s0: "serial_written runner_init = []"
    by (simp_all add: runner_init_def)
  have h: "loop_body runner_init (failing_pass no_hand)
           = (fst (loop_body runner_init (failing_pass no_hand)),
              snd (loop_body runner_init (failing_pass no_hand)))"
    by simp
  show ?thesis
    using failed_write_keeps_record [OF h, where its = "[frame_pass (pinch 100)]"] raises
    unfolding w w0 s0
    by simp
qed

lemma mapping_names:
  "(k, n) \<in> set mapping \<Longrightarrow> n \<in> set [''ZERO'', ''ONE'', ''TWO'', ''THREE'', ''FOUR'', ''FIVE'']"
  by (auto simp: mapping_def)

text \<open>
  Claim C2, as amended. Whenever a pass of the loop adds to what the port has
  received, it adds one byte string: the UTF-8 encoding, equal to the text itself, of
  the name that \<^verbatim>\<open>mapping\<close> holds for the level of the pass (ZERO, ONE, TWO,
  THREE, FOUR or FIVE) followed by a newline.
\<close>

theorem written_line_is_level_name:
  assumes "loop_body s it = (c, s')"
  shows "serial_written s' = serial_written s \<or>
         (\<exists>n. map_distance_to_scale (line_dist (detector s')) 15 200 = Inr n \<and>
              (scale_key (line_dist (detector s')) 15 200, n) \<in> set mapping \<and>
              n \<in> set [''ZERO'', ''ONE'', ''TWO'', ''THREE'', ''FOUR'', ''FIVE''] \<and>
              encode_utf8 (n @ [CHR 0x0A]) = n @ [CHR 0x0A] \<and>
              serial_written s' = serial_written s @ [encode_utf8 (n @ [CHR 0x0A])])"
proof (cases "camera_read it")
  case None
  with assms show ?thesis by (auto simp: loop_body_no_frame)
next
  case (Some frame)
  obtain r d where dl:
    "draw_line (get_hand (detector s) frame) frame ''thumb'' ''index'' True = (Inr r, d)"
    using draw_line_total by blast
  obtain name where nm: "map_distance_to_scale (line_dist d) 15 200 = Inr name"
    and mem: "(scale_key (line_dist d) 15 200, name) \<in> set mapping"
    using map_distance_to_scale_total by blast
  note lb = loop_body_frame [OF Some dl nm]
  have s': "s' = snd (loop_body s it)"
    by (simp add: assms)
  have d: "detector s' = d"
    unfolding s' lb by (simp add: end_of_pass_snd)
  have "serial_written s' = serial_written s \<or>
        serial_written s' = serial_written s @ [encode_utf8 (name @ [CHR 0x0A])]"
    unfolding s' lb by (simp add: end_of_pass_snd)
  then show ?thesis
  proof
    assume "serial_written s' = serial_written s"
    then show ?thesis by (rule disjI1)
  next
    assume w: "serial_written s' = serial_written s @ [encode_utf8 (name @ [CHR 0x0A])]"
    have "map_distance_to_scale (line_dist (detector s')) 15 200 = Inr name"
      and "(scale_key (line_dist (detector s')) 15 200, name) \<in> set mapping"
      using nm mem by (simp_all only: d)
    with w mapping_names [OF mem] encode_utf8_mapping [OF mem] show ?thesis
      by blast
  qed
qed

theorem written_line_is_level_name_witness:
  "\<exists>n. n \<in> set [''ZERO'', ''ONE'', ''TWO'', ''THREE'', ''FOUR'', ''FIVE''] \<and>
       serial_written (snd (loop_body runner_init (frame_pass (pinch 205)))) = [n @ [CHR 0x0A]]"
proof -
  have h: "loop_body runner_init (frame_pass (pinch 205))
           = (Continue, snd (loop_body runner_init (frame_pass (pinch 205))))"
    by (simp add: loop_body_pinch_205)
  have w: "serial_written (snd (loop_body runner_init (frame_pass (pinch 205)))) \<noteq> []"
    and s0: "serial_written runner_init = []"
    by (simp_all add: loop_body_pinch_205 runner_init_def)
  from written_line_is_level_name [OF h] show ?thesis
  proof
    assume "serial_written (snd (loop_body runner_init (frame_pass (pinch 205))))
            = serial_written runner_init"
    with w s0 show ?thesis by simp
  next
    assume "\<exists>n. map_distance_to_scale
                 (line_dist (detector (snd (loop_body runner_init (frame_pass (pinch 205)))))) 15 200
               = Inr n \<and>
              (scale_key (line_dist (detector (snd (loop_body runner_init (frame_pass (pinch 205))))))
                 15 200, n) \<in> set mapping \<and>
              n \<in> set [''ZERO'', ''ONE'', ''TWO'', ''THREE'', ''FOUR'', ''FIVE''] \<and>
              encode_utf8 (n @ [CHR 0x0A]) = n @ [CHR 0x0A] \<and>
              serial_written (snd (loop_body runner_init (frame_pass (pinch 205))))
                = serial_written runner_init @ [encode_utf8 (n @ [CHR 0x0A])]"
    then obtain n where a: "n \<in> set [''ZERO'', ''ONE'', ''TWO'', ''THREE'', ''FOUR'', ''FIVE'']"
      and b: "encode_utf8 (n @ [CHR 0x0A]) = n @ [CHR 0x0A]"
      and c: "serial_written (snd (loop_body runner_init (frame_pass (pinch 205))))
                = serial_written runner_init @ [encode_utf8 (n @ [CHR 0x0A])]"
      by blast
    from c have "serial_written (snd (loop_body runner_init (frame_pass (pinch 205))))
                 = [n @ [CHR 0x0A]]"
      by (simp only: b s0 append_Nil)
    with a show ?thesis by blast
  qed
qed

text \<open>
  Claim C2 as stated fails: for a hand whose fingertips are 205 pixels apart the
  port receives the five bytes FIVE and newline, not a decimal digit and newline.
\<close>

theorem written_line_counterexample:
  "serial_written (snd (loop_body runner_init (frame_pass (pinch 205)))) = [''FIVE'' @ [CHR 0x0A]] \<and>
   ''FIVE'' @ [CHR 0x0A] \<notin>
     set (map (\<lambda>digit. encode_utf8 [digit, CHR 0x0A]) ''012345'')"
  by (simp add: loop_body_pinch_205 runner_init_def encode_utf8_def encode_char_def)

text \<open>
  Claim C5, as amended. In a pass whose frame shows no hand, or no pair of thumb and
  index fingertips, the detector's distance keeps its previous value and the line
  of its level goes through the same test as in any pass: it is handed to the port
  if and only if it differs from \<^verbatim>\<open>last_sent_data\<close>. In the first pass of the loop
  this sends ZERO; after at least one completed pass nothing is sent and the loop
  continues unless the quit key is pressed.
\<close>

theorem detection_gap_resends_nothing:
  assumes "camera_read it = Some frame"
    and "multi_hand_landmarks frame = [] \<or>
         fst (draw_line (get_hand (detector s) frame) frame ''thumb'' ''index'' True) = Inr NoLine"
    and "loop_body s it = (c, s')"
  shows "line_dist (detector s') = line_dist (detector s) \<and>
         (\<exists>n. map_distance_to_scale (line_dist (detector s)) 15 200 = Inr n \<and>
              write_calls s' =
                (if n @ [CHR 0x0A] = last_sent_data s then write_calls s
                 else write_calls s @ [n @ [CHR 0x0A]])) \<and>
         (s = runner_init \<longrightarrow> write_calls s' = [''ZERO'' @ [CHR 0x0A]]) \<and>
         (\<forall>it0 its. run_loop runner_init (it0 # its) = (Continue, s) \<longrightarrow>
            write_calls s' = write_calls s \<and> serial_written s' = serial_written s \<and>
            c = (if quit_pressed it then Break QuitKey else Continue))"
proof -
  obtain n where nm: "map_distance_to_scale (line_dist (detector s)) 15 200 = Inr n"
    using map_distance_to_scale_total by blast
  note lb = loop_body_no_line [OF assms(1) assms(2) nm]
  have s': "s' = snd (loop_body s it)" and c: "c = fst (loop_body s it)"
    by (simp_all add: assms(3))
  have dist: "line_dist (detector s') = line_dist (detector s)"
    unfolding s' lb by (simp add: end_of_pass_snd line_dist_get_hand)
  have calls: "write_calls s' =
      (if n @ [CHR 0x0A] = last_sent_data s then write_calls s else write_calls s @ [n @ [CHR 0x0A]])"
    unfolding s' lb by (simp add: end_of_pass_snd)
  have first: "s = runner_init \<longrightarrow> write_calls s' = [''ZERO'' @ [CHR 0x0A]]"
  proof
    assume init: "s = runner_init"
    with nm have "n = ''ZERO''"
      by (simp add: runner_init_def Hand_init_def scale_0)
    with calls init show "write_calls s' = [''ZERO'' @ [CHR 0x0A]]"
      by (simp add: runner_init_def)
  qed
  have later: "write_calls s' = write_calls s \<and> serial_written s' = serial_written s \<and>
               c = (if quit_pressed it then Break QuitKey else Continue)"
    if run: "run_loop runner_init (it0 # its) = (Continue, s)" for it0 its
  proof -
    from run have "synced s"
      by (rule run_loop_synced)
    with nm have "last_sent_data s = n @ [CHR 0x0A]"
      by (auto simp: synced_def)
    then show ?thesis
      unfolding s' c lb by (simp add: end_of_pass_snd end_of_pass_fst)
  qed
  show ?thesis
    using dist nm calls first later by blast
qed

lemma loop_body_init_no_hand:
  "loop_body runner_init (frame_pass no_hand) =
     (Continue,
      runner_init\<lparr>detector := get_hand Hand_init no_hand,
        write_calls := [''ZERO'' @ [CHR 0x0A]],
        serial_written := [''ZERO'' @ [CHR 0x0A]],
        last_sent_data := ''ZERO'' @ [CHR 0x0A]\<rparr>)"
proof -
  have cam: "camera_read (frame_pass no_hand) = Some no_hand"
    by (simp add: frame_pass_def)
  have nm: "map_distance_to_scale (line_dist (detector runner_init)) 15 200 = Inr ''ZERO''"
    by (simp add: runner_init_def Hand_init_def scale_0)
  show ?thesis
    using loop_body_no_line [OF cam _ nm]
    by (simp add: no_hand_def runner_init_def end_of_pass_def frame_pass_def)
qed

theorem detection_gap_resends_nothing_witness:
  "multi_hand_landmarks no_hand = [] \<and>
   write_calls (snd (loop_body (snd (run_loop runner_init [frame_pass (pinch 100)]))
                      (frame_pass no_hand)))
     = write_calls (snd (run_loop runner_init [frame_pass (pinch 100)])) \<and>
   fst (loop_body (snd (run_loop runner_init [frame_pass (pinch 100)])) (frame_pass no_hand))
     = Continue"
proof -
  let ?s = "snd (run_loop runner_init [frame_pass (pinch 100)])"
  have h0: "multi_hand_landmarks no_hand = []"
    by (simp add: no_hand_def)
  have h1: "camera_read (frame_pass no_hand) = Some no_hand"
    and q: "\<not> quit_pressed (frame_pass no_hand)"
    by (simp_all add: frame_pass_def)
  have h2: "multi_hand_landmarks no_hand = [] \<or>
            fst (draw_line (get_hand (detector ?s) no_hand) no_hand ''thumb'' ''index'' True)
              = Inr NoLine"
    using h0 by (rule disjI1)
  have h3: "loop_body ?s (frame_pass no_hand)
            = (fst (loop_body ?s (frame_pass no_hand)), snd (loop_body ?s (frame_pass no_hand)))"
    by simp
  have run: "run_loop runner_init (frame_pass (pinch 100) # []) = (Continue, ?s)"
    by (simp add: loop_body_pinch_100)
  from detection_gap_resends_nothing [OF h1 h2 h3]
  have "\<forall>it0 its. run_loop runner_init (it0 # its) = (Continue, ?s) \<longrightarrow>
          write_calls (snd (loop_body ?s (frame_pass no_hand))) = write_calls ?s \<and>
          serial_written (snd (loop_body ?s (frame_pass no_hand))) = serial_written ?s \<and>
          fst (loop_body ?s (frame_pass no_hand))
            = (if quit_pressed (frame_pass no_hand) then Break QuitKey else Continue)"
    by blast
  with run q h0 show ?thesis
    by (simp only: if_False)
qed

text \<open>
  Claim C5 as stated fails: the first pass of the loop, on a frame without a hand,
  sends the line ZERO.
\<close>

theorem detection_gap_counterexample:
  "camera_read (frame_pass no_hand) = Some no_hand \<and>
   multi_hand_landmarks no_hand = [] \<and>
   write_calls (snd (loop_body runner_init (frame_pass no_hand))) = [''ZERO'' @ [CHR 0x0A]] \<and>
   serial_written (snd (loop_body runner_init (frame_pass no_hand))) = [''ZERO'' @ [CHR 0x0A]]"
proof -
  have "camera_read (frame_pass no_hand) = Some no_hand"
    by (simp add: frame_pass_def)
  moreover have "multi_hand_landmarks no_hand = []"
    by (simp add: no_hand_def)
  moreover have "write_calls (snd (loop_body runner_init (frame_pass no_hand)))
                 = [''ZERO'' @ [CHR 0x0A]]"
    and "serial_written (snd (loop_body runner_init (frame_pass no_hand)))
                 = [''ZERO'' @ [CHR 0x0A]]"
    by (simp_all add: loop_body_init_no_hand)
  ultimately show ?thesis
    by blast
qed

subsection \<open>The finger geometry\<close>

lemma get_finger_points_eq:
  "get_finger_points self img points =
     (let hs = (case results self of None \<Rightarrow> multi_hand_landmarks img | Some hs \<Rightarrow> hs)
      in (if concat (map (hand_positions img points) hs) = [] then None
          else Some (concat (map (hand_positions img points) hs)),
          if results self = None then get_hand self img else self))"
  by (cases "results self") (simp_all add: get_finger_points_def Let_def results_get_hand)

lemma get_finger_points_snd:
  "snd (get_finger_points self img points) = (if results self = None then get_hand self img else self)"
  by (simp add: get_finger_points_eq Let_def)

lemma get_all_fingers_eq:
  "get_all_fingers self img =
     ([fst (get_finger_points self img [2, 3, 4]),
       fst (get_finger_points self img [5, 6, 7, 8]),
       fst (get_finger_points self img [9, 10, 11, 12]),
       fst (get_finger_points self img [13, 14, 15, 16]),
       fst (get_finger_points self img [17, 18, 19, 20])],
      if results self = None then get_hand self img else self)"
  by (cases "results self")
    (simp_all add: get_all_fingers_def get_finger_points_eq Let_def results_get_hand)

lemma get_finger_named:
  assumes "finger_points finger = Some points"
  shows "get_finger self img finger =
           (Finger (fst (get_finger_points self img points)),
            if results self = None then get_hand self img else self)"
  using assms get_finger_points_snd [of self img points]
  by (simp add: get_finger_def case_prod_unfold)

lemma finger_points_unknown:
  assumes "finger \<notin> set [''thumb'', ''index'', ''middle'', ''ring'', ''pinky'']"
  shows "finger_points finger = None"
  using assms by (simp add: finger_points_def)

lemma finger_points_names:
  "finger_points ''middle'' = Some [9, 10, 11, 12]"
  "finger_points ''ring'' = Some [13, 14, 15, 16]"
  "finger_points ''pinky'' = Some [17, 18, 19, 20]"
  by (simp_all add: finger_points_def)

text \<open>
  Claim C7, as amended. For every string that is not one of the five finger names,
  \<^verbatim>\<open>get_finger\<close> returns the list of the results for the five fingers, in the
  order thumb, index, middle, ring, pinky; it has no raising branch.
\<close>

theorem get_finger_unknown_name:
  assumes "finger \<notin> set [''thumb'', ''index'', ''middle'', ''ring'', ''pinky'']"
  shows "\<exists>thumb index middle ring pinky.
           fst (get_finger self img finger) = AllFingers [thumb, index, middle, ring, pinky] \<and>
           fst (get_finger self img ''thumb'') = Finger thumb \<and>
           fst (get_finger self img ''index'') = Finger index \<and>
           fst (get_finger self img ''middle'') = Finger middle \<and>
           fst (get_finger self img ''ring'') = Finger ring \<and>
           fst (get_finger self img ''pinky'') = Finger pinky"
proof -
  have "fst (get_finger self img finger) = AllFingers (fst (get_all_fingers self img))"
    using finger_points_unknown [OF assms] by (simp add: get_finger_def case_prod_unfold Let_def)
  then show ?thesis
    by (simp add: get_all_fingers_eq get_finger_named finger_points_thumb finger_points_index
          finger_points_names)
qed


theorem get_finger_unknown_name_witness:
  "''wrist'' \<notin> set [''thumb'', ''index'', ''middle'', ''ring'', ''pinky''] \<and>
   (\<exists>fingers. fst (get_finger Hand_init (pinch 100) ''wrist'') = AllFingers fingers \<and>
              length fingers = 5)"
proof -
  have h: "''wrist'' \<notin> set [''thumb'', ''index'', ''middle'', ''ring'', ''pinky'']"
    by simp
  from get_finger_unknown_name [OF h, of Hand_init "pinch 100"]
  obtain thumb index middle ring pinky where
    "fst (get_finger Hand_init (pinch 100) ''wrist'') = AllFingers [thumb, index, middle, ring, pinky]"
    by blast
  then have "\<exists>fingers. fst (get_finger Hand_init (pinch 100) ''wrist'') = AllFingers fingers \<and>
              length fingers = 5"
    by simp
  with h show ?thesis
    by (rule conjI)
qed

lemma pinch_positions:
  "hand_positions (pinch n) [2, 3, 4] (pinch_hand n) = [(0, 0), (0, 0), (0, 0)]"
  "hand_positions (pinch n) [5, 6, 7, 8] (pinch_hand n) = [(0, 0), (0, 0), (0, 0), (n, 0)]"
  "hand_positions (pinch n) [9, 10, 11, 12] (pinch_hand n) = [(0, 0), (0, 0), (0, 0), (0, 0)]"
  "hand_positions (pinch n) [13, 14, 15, 16] (pinch_hand n) = [(0, 0), (0, 0), (0, 0), (0, 0)]"
  "hand_positions (pinch n) [17, 18, 19, 20] (pinch_hand n) = [(0, 0), (0, 0), (0, 0), (0, 0)]"
proof -
  have p: "py_int (real_of_int n) = n" and z: "py_int 0 = 0"
    by (simp_all add: py_int_def)
  have nth: "\<And>k. k < 21 \<Longrightarrow> k \<noteq> 8 \<Longrightarrow> pinch_hand n ! k = (0, 0)"
    "pinch_hand n ! 8 = (real_of_int n / 1000, 0)"
    by (auto simp: pinch_hand_def nth_append)
  have a: "\<And>k. k < 21 \<Longrightarrow> k \<noteq> 8 \<Longrightarrow> absolute (pinch n) (pinch_hand n ! k) = (0, 0)"
    "absolute (pinch n) (pinch_hand n ! 8) = (n, 0)"
    using p z by (simp_all add: nth absolute_def pinch_def)
  show "hand_positions (pinch n) [2, 3, 4] (pinch_hand n) = [(0, 0), (0, 0), (0, 0)]"
    "hand_positions (pinch n) [5, 6, 7, 8] (pinch_hand n) = [(0, 0), (0, 0), (0, 0), (n, 0)]"
    "hand_positions (pinch n) [9, 10, 11, 12] (pinch_hand n) = [(0, 0), (0, 0), (0, 0), (0, 0)]"
    "hand_positions (pinch n) [13, 14, 15, 16] (pinch_hand n) = [(0, 0), (0, 0), (0, 0), (0, 0)]"
    "hand_positions (pinch n) [17, 18, 19, 20] (pinch_hand n) = [(0, 0), (0, 0), (0, 0), (0, 0)]"
    by (simp_all add: hand_positions_21 [OF pinch_length] a)
qed

text \<open>
  Claim C7 as stated fails: asked for a finger named wrist on a frame with a hand,
  \<^verbatim>\<open>get_finger\<close> returns the positions of all five fingers, not \<open>None\<close>.
\<close>

theorem get_finger_unknown_name_counterexample:
  "fst (get_finger Hand_init (pinch 100) ''wrist'') =
     AllFingers [Some [(0, 0), (0, 0), (0, 0)],
                 Some [(0, 0), (0, 0), (0, 0), (100, 0)],
                 Some [(0, 0), (0, 0), (0, 0), (0, 0)],
                 Some [(0, 0), (0, 0), (0, 0), (0, 0)],
                 Some [(0, 0), (0, 0), (0, 0), (0, 0)]] \<and>
   fst (get_finger Hand_init (pinch 100) ''wrist'') \<noteq> Finger None"
proof -
  have m: "multi_hand_landmarks (pinch 100) = [pinch_hand 100]"
    by (simp add: pinch_def)
  have "finger_points ''wrist'' = None"
    by (simp add: finger_points_def)
  then have "fst (get_finger Hand_init (pinch 100) ''wrist'')
             = AllFingers (fst (get_all_fingers Hand_init (pinch 100)))"
    by (simp add: get_finger_def case_prod_unfold Let_def)
  also have "fst (get_all_fingers Hand_init (pinch 100)) =
     [Some [(0, 0), (0, 0), (0, 0)],
      Some [(0, 0), (0, 0), (0, 0), (100, 0)],
      Some [(0, 0), (0, 0), (0, 0), (0, 0)],
      Some [(0, 0), (0, 0), (0, 0), (0, 0)],
      Some [(0, 0), (0, 0), (0, 0), (0, 0)]]"
    unfolding get_all_fingers_eq get_finger_points_eq Let_def
    by (simp add: Hand_init_def m pinch_positions)
  finally show ?thesis
    by simp
qed

text \<open>
  Claim C8, as amended. For a named finger, every position that \<^verbatim>\<open>get_finger\<close>
  returns is the landmark's normalised coordinate times the width, respectively the
  height, of the image passed to the call, truncated towards zero (not rounded); the
  positions are those of the finger's landmark indices, hand by hand.
\<close>

theorem get_finger_truncates:
  assumes "finger_points finger = Some points"
    and "results self = Some hs \<or> results self = None \<and> multi_hand_landmarks img = hs"
  shows "fst (get_finger self img finger) =
           (let positions =
                  concat (map (\<lambda>i. map (\<lambda>p. (py_int (fst (i ! p) * real_of_int (shape_w img)),
                                              py_int (snd (i ! p) * real_of_int (shape_h img))))
                                      (filter (\<lambda>p. p \<in> set points) [0..<length i])) hs)
            in Finger (if positions = [] then None else Some positions))"
proof -
  have hs: "(case results self of None \<Rightarrow> multi_hand_landmarks img | Some hs \<Rightarrow> hs) = hs"
    using assms(2) by auto
  have hp: "hand_positions img points =
        (\<lambda>i. map (\<lambda>p. (py_int (fst (i ! p) * real_of_int (shape_w img)),
                        py_int (snd (i ! p) * real_of_int (shape_h img))))
                 (filter (\<lambda>p. p \<in> set points) [0..<length i]))"
    by (rule ext) (simp add: hand_positions_nth absolute_def)
  show ?thesis
    unfolding get_finger_named [OF assms(1)] get_finger_points_eq hs Let_def hp
    by simp
qed

lemma small_frame_thumb:
  "fst (get_finger Hand_init small_frame ''thumb'') = Finger (Some [(5, 5), (5, 5), (5, 5)])"
proof -
  have l: "length (replicate 21 (57 / 100 :: real, 57 / 100 :: real)) = 21"
    by simp
  have a: "absolute small_frame (57 / 100, 57 / 100) = (5, 5)"
    by (simp add: absolute_def small_frame_def py_int_def)
  have hp: "hand_positions small_frame [2, 3, 4] (replicate 21 (57 / 100, 57 / 100))
            = [(5, 5), (5, 5), (5, 5)]"
    by (simp add: hand_positions_21 [OF l] a)
  have m: "multi_hand_landmarks small_frame = [replicate 21 (57 / 100, 57 / 100)]"
    by (simp add: small_frame_def)
  show ?thesis
    unfolding get_finger_named [OF finger_points_thumb] get_finger_points_eq Let_def
    by (simp add: Hand_init_def m hp)
qed

theorem get_finger_truncates_witness:
  "finger_points ''thumb'' = Some [2, 3, 4] \<and>
   results Hand_init = None \<and>
   fst (get_finger Hand_init small_frame ''thumb'') = Finger (Some [(5, 5), (5, 5), (5, 5)])"
proof -
  have h2: "results Hand_init = Some [replicate 21 (57 / 100, 57 / 100)] \<or>
            results Hand_init = None \<and>
            multi_hand_landmarks small_frame = [replicate 21 (57 / 100, 57 / 100)]"
    by (simp add: Hand_init_def small_frame_def)
  have r: "results Hand_init = None"
    by (simp add: Hand_init_def)
  have w: "shape_w small_frame = 10" and h: "shape_h small_frame = 10"
    by (simp_all add: small_frame_def)
  have "fst (get_finger Hand_init small_frame ''thumb'') = Finger (Some [(5, 5), (5, 5), (5, 5)])"
    using get_finger_truncates [OF finger_points_thumb h2]
    by (simp add: upt_21 w h py_int_def Let_def)
  with finger_points_thumb r show ?thesis
    by blast
qed

text \<open>
  Claim C8 as stated fails: the pixel coordinates are truncated, not rounded. In a
  frame 10 pixels wide and high a landmark at 0.57 gets the coordinate 5, while 5.7
  rounds to 6.
\<close>

theorem get_finger_round_counterexample:
  "set (multi_hand_landmarks small_frame) = {replicate 21 (57 / 100, 57 / 100)} \<and>
   round (57 / 100 * real_of_int (shape_w small_frame)) = 6 \<and>
   round (57 / 100 * real_of_int (shape_h small_frame)) = 6 \<and>
   fst (get_finger Hand_init small_frame ''thumb'') = Finger (Some [(5, 5), (5, 5), (5, 5)])"
proof -
  have "round (57 / 100 * real_of_int (shape_w small_frame)) = 6"
    and "round (57 / 100 * real_of_int (shape_h small_frame)) = 6"
    by (simp_all add: small_frame_def round_def)
  moreover have "set (multi_hand_landmarks small_frame) = {replicate 21 (57 / 100, 57 / 100)}"
    by (simp add: small_frame_def)
  ultimately show ?thesis
    using small_frame_thumb by blast
qed

subsection \<open>The extension classifier\<close>

text \<open>With a hand in the frame the classifier counts: index and middle finger give TWO.\<close>

lemma two_fingers_length: "length two_fingers_hand = 21"
  by (simp add: two_fingers_hand_def)

lemma two_fingers_positions:
  "hand_positions two_fingers [2, 3, 4] two_fingers_hand = [(0, 0), (0, 0), (0, 0)]"
  "hand_positions two_fingers [5, 6, 7, 8] two_fingers_hand = [(0, 0), (0, 0), (0, 0), (500, 0)]"
  "hand_positions two_fingers [9, 10, 11, 12] two_fingers_hand = [(0, 0), (0, 0), (0, 0), (500, 0)]"
  "hand_positions two_fingers [13, 14, 15, 16] two_fingers_hand = [(0, 0), (0, 0), (0, 0), (0, 0)]"
  "hand_positions two_fingers [17, 18, 19, 20] two_fingers_hand = [(0, 0), (0, 0), (0, 0), (0, 0)]"
proof -
  have nth: "\<And>k. k < 21 \<Longrightarrow> k \<noteq> 8 \<Longrightarrow> k \<noteq> 12 \<Longrightarrow> two_fingers_hand ! k = (0, 0)"
    "two_fingers_hand ! 8 = (1 / 2, 0)" "two_fingers_hand ! 12 = (1 / 2, 0)"
    by (auto simp: two_fingers_hand_def nth_append nth_Cons')
  have a: "\<And>k. k < 21 \<Longrightarrow> k \<noteq> 8 \<Longrightarrow> k \<noteq> 12 \<Longrightarrow> absolute two_fingers (two_fingers_hand ! k) = (0, 0)"
    "absolute two_fingers (two_fingers_hand ! 8) = (500, 0)"
    "absolute two_fingers (two_fingers_hand ! 12) = (500, 0)"
    by (simp_all add: nth absolute_def two_fingers_def py_int_def)
  show "hand_positions two_fingers [2, 3, 4] two_fingers_hand = [(0, 0), (0, 0), (0, 0)]"
    "hand_positions two_fingers [5, 6, 7, 8] two_fingers_hand = [(0, 0), (0, 0), (0, 0), (500, 0)]"
    "hand_positions two_fingers [9, 10, 11, 12] two_fingers_hand = [(0, 0), (0, 0), (0, 0), (500, 0)]"
    "hand_positions two_fingers [13, 14, 15, 16] two_fingers_hand = [(0, 0), (0, 0), (0, 0), (0, 0)]"
    "hand_positions two_fingers [17, 18, 19, 20] two_fingers_hand = [(0, 0), (0, 0), (0, 0), (0, 0)]"
    by (simp_all add: hand_positions_21 [OF two_fingers_length] a)
qed

lemma finger_count_two_fingers: "fst (finger_count Hand_init two_fingers) = Inr ''TWO''"
proof -
  have m: "multi_hand_landmarks two_fingers = [two_fingers_hand]"
    by (simp add: two_fingers_def)
  have ga: "get_all_fingers Hand_init two_fingers =
     ([Some [(0, 0), (0, 0), (0, 0)],
       Some [(0, 0), (0, 0), (0, 0), (500, 0)],
       Some [(0, 0), (0, 0), (0, 0), (500, 0)],
       Some [(0, 0), (0, 0), (0, 0), (0, 0)],
       Some [(0, 0), (0, 0), (0, 0), (0, 0)]],
      get_hand Hand_init two_fingers)"
    unfolding get_all_fingers_eq get_finger_points_eq Let_def
    by (simp add: Hand_init_def m two_fingers_positions)
  show ?thesis
    unfolding finger_count_def ga
    by (simp add: tip_beyond_previous_def mapping_lookup_def mapping_def)
qed

lemma get_all_fingers_no_hand:
  assumes "results self = Some [] \<or> results self = None \<and> multi_hand_landmarks img = []"
  shows "fst (get_all_fingers self img) = [None, None, None, None, None]"
  using assms
  by (auto simp: get_all_fingers_eq get_finger_points_eq Let_def)

text \<open>
  Claim C6. The claim asks that the classifier return a distinct value, undetected
  and not a count, whenever no hand is present. The code does not: for every image
  on which no hand is detected, whether the detector is fresh or holds the report of
  an earlier call, \<^verbatim>\<open>finger_count\<close> returns no value at all. The list of five
  \<open>None\<close> that \<^verbatim>\<open>get_finger\<close> returns is not empty, so the test
  \<^verbatim>\<open>if points:\<close> passes and the subscript on the index finger's \<open>None\<close> raises
  TypeError.
\<close>

theorem finger_count_no_hand_raises:
  assumes "results self = Some [] \<or> results self = None \<and> multi_hand_landmarks img = []"
  shows "fst (finger_count self img) = Inl TypeError \<and>
         fst (finger_count self img) \<noteq> Inr ''undetected'' \<and>
         fst (finger_count self img) \<noteq> Inr ''ZERO''"
proof -
  have "fst (finger_count self img) = Inl TypeError"
    using get_all_fingers_no_hand [OF assms]
    by (simp add: finger_count_def case_prod_unfold Let_def tip_beyond_previous_def)
  then show ?thesis
    by simp
qed

theorem finger_count_no_hand_raises_witness:
  "results Hand_init = None \<and> multi_hand_landmarks no_hand = [] \<and>
   fst (finger_count Hand_init no_hand) = Inl TypeError"
proof -
  have r: "results Hand_init = None" and m: "multi_hand_landmarks no_hand = []"
    by (simp_all add: Hand_init_def no_hand_def)
  have h: "results Hand_init = Some [] \<or> results Hand_init = None \<and> multi_hand_landmarks no_hand = []"
    using r m by simp
  from finger_count_no_hand_raises [OF h] r m show ?thesis
    by blast
qed

end
